theory Spec2Isabelle
  imports
    Complex_Main
    "HOL-Library.AList"
    "HOL-Library.Char_ord"
    "HOL-Library.List_Lexorder"
    "HOL-Library.Product_Lexorder"
    "HOL-Library.Log_Nat"
begin

section \<open>Python values, exceptions and string primitives\<close>

text \<open>
  The module \<^verbatim>\<open>source/gui/configwindow.py\<close> is modelled function by function.
  Python strings are \<^typ>\<open>string\<close>; the builtin string methods the module calls are given
  here with the behaviour of Python 3 on ASCII text. An exception is a value \<open>Inl e\<close> of the
  result type \<open>error + 'a\<close>.
\<close>

datatype error = ValueError | IndexError | KeyError | TypeError

definition and_then :: "error + 'a \<Rightarrow> ('a \<Rightarrow> error + 'b) \<Rightarrow> error + 'b" where
  "and_then m f = (case m of Inl e \<Rightarrow> Inl e | Inr x \<Rightarrow> f x)"

lemma and_then_cong [fundef_cong]:
  "m = m' \<Longrightarrow> (\<And>x. m' = Inr x \<Longrightarrow> f x = f' x) \<Longrightarrow> and_then m f = and_then m' f'"
  by (cases m') (simp_all add: and_then_def)

text \<open>\<open>xs[i]\<close>, \<open>xs[i] = v\<close> and \<open>del xs[i]\<close> on a Python list, for an index \<open>i \<ge> 0\<close>.\<close>

definition getitem :: "'a list \<Rightarrow> nat \<Rightarrow> error + 'a" where
  "getitem xs i = (if i < length xs then Inr (xs ! i) else Inl IndexError)"

definition setitem :: "'a list \<Rightarrow> nat \<Rightarrow> 'a \<Rightarrow> error + 'a list" where
  "setitem xs i v = (if i < length xs then Inr (xs[i := v]) else Inl IndexError)"

definition delitem :: "'a list \<Rightarrow> nat \<Rightarrow> error + 'a list" where
  "delitem xs i = (if i < length xs then Inr (take i xs @ drop (Suc i) xs) else Inl IndexError)"

text \<open>The single and the double quote, and the newline character.\<close>

definition sq :: char where "sq = CHR 0x27"
definition dq :: char where "dq = CHR 0x22"
definition newline :: char where "newline = CHR 0x0A"

text \<open>\<open>str.isspace\<close> on one ASCII character: tab, line feed, vertical tab, form feed,
  carriage return, the four separators 0x1C to 0x1F, and the space.\<close>

definition isspace :: "char \<Rightarrow> bool" where
  "isspace c = (c \<in> set [CHR 0x09, CHR 0x0A, CHR 0x0B, CHR 0x0C, CHR 0x0D,
                          CHR 0x1C, CHR 0x1D, CHR 0x1E, CHR 0x1F, CHR 0x20])"

definition strip_where :: "(char \<Rightarrow> bool) \<Rightarrow> string \<Rightarrow> string" where
  "strip_where P s = rev (dropWhile P (rev (dropWhile P s)))"

text \<open>\<open>s.strip()\<close> and \<open>s.strip(chars)\<close>.\<close>

definition strip :: "string \<Rightarrow> string" where
  "strip s = strip_where isspace s"

definition strip_chars :: "string \<Rightarrow> string \<Rightarrow> string" where
  "strip_chars chars s = strip_where (\<lambda>c. c \<in> set chars) s"

text \<open>\<open>s.startswith(p)\<close>.\<close>

definition startswith :: "string \<Rightarrow> string \<Rightarrow> bool" where
  "startswith s p = (take (length p) s = p)"

text \<open>\<open>s.find(sub, start)\<close> for \<open>start \<ge> 0\<close>: the least index \<open>\<ge> start\<close> at which \<open>sub\<close>
  occurs, or \<open>-1\<close>.\<close>

fun find_from :: "string \<Rightarrow> string \<Rightarrow> nat \<Rightarrow> int" where
  "find_from sub [] k = (if sub = [] then int k else - 1)"
| "find_from sub (c # cs) k =
     (if startswith (c # cs) sub then int k else find_from sub cs (Suc k))"

definition str_find :: "string \<Rightarrow> string \<Rightarrow> nat \<Rightarrow> int" where
  "str_find s sub start =
     (if start \<le> length s then find_from sub (drop start s) start else - 1)"

text \<open>\<open>sub in s\<close> for two strings.\<close>

definition str_contains :: "string \<Rightarrow> string \<Rightarrow> bool" where
  "str_contains sub s = (str_find s sub 0 \<ge> 0)"

text \<open>\<open>s[a:b]\<close> for \<open>0 \<le> a\<close> and \<open>0 \<le> b\<close>.\<close>

definition slice :: "string \<Rightarrow> int \<Rightarrow> int \<Rightarrow> string" where
  "slice s a b = take (nat (b - a)) (drop (nat a) s)"

text \<open>\<open>s.split(sep)\<close> for a separator of one character: never the empty list.\<close>

fun str_split :: "string \<Rightarrow> char \<Rightarrow> string list" where
  "str_split [] sep = [[]]"
| "str_split (c # cs) sep =
     (if c = sep then [] # str_split cs sep
      else (case str_split cs sep of
              [] \<Rightarrow> [[c]]
            | w # ws \<Rightarrow> (c # w) # ws))"

text \<open>\<open>s.replace(old, new)\<close>: every occurrence of \<open>old\<close>, found from the left without
  overlap, is replaced; an empty \<open>old\<close> matches before every character and at the end.\<close>

fun replace_from :: "string \<Rightarrow> string \<Rightarrow> string \<Rightarrow> string" where
  "replace_from [] old new = []"
| "replace_from (c # cs) old new =
     (if old \<noteq> [] \<and> startswith (c # cs) old
      then new @ replace_from (drop (length old) (c # cs)) old new
      else c # replace_from cs old new)"

definition str_replace :: "string \<Rightarrow> string \<Rightarrow> string \<Rightarrow> string" where
  "str_replace s old new =
     (if old = [] then new @ concat (map (\<lambda>c. c # new) s) else replace_from s old new)"

subsection \<open>The builtins \<open>int\<close> and \<open>float\<close> on strings\<close>

definition is_digit :: "char \<Rightarrow> bool" where
  "is_digit c = (CHR ''0'' \<le> c \<and> c \<le> CHR ''9'')"

definition digit_val :: "char \<Rightarrow> nat" where
  "digit_val c = of_char c - of_char CHR ''0''"

text \<open>Before and after a number the two builtins skip the white space of the C locale
  (\<open>Py_ISSPACE\<close>): tab, line feed, vertical tab, form feed, carriage return and space.
  The separators 0x1C to 0x1F, which \<open>str.strip\<close> removes, are no white space for them.\<close>

definition is_c_space :: "char \<Rightarrow> bool" where
  "is_c_space c = (c \<in> set [CHR 0x09, CHR 0x0A, CHR 0x0B, CHR 0x0C, CHR 0x0D, CHR 0x20])"

definition skip_space :: "string \<Rightarrow> string" where
  "skip_space s = strip_where is_c_space s"

text \<open>A run of decimal digits, in which single underscores may stand between two digits.\<close>

fun digits_acc :: "string \<Rightarrow> nat \<Rightarrow> nat option" where
  "digits_acc [] acc = Some acc"
| "digits_acc (c # cs) acc =
     (if is_digit c then digits_acc cs (10 * acc + digit_val c)
      else if c = CHR ''_'' \<and> cs \<noteq> [] \<and> is_digit (hd cs) then digits_acc cs acc
      else None)"

definition digit_group :: "string \<Rightarrow> nat option" where
  "digit_group s = (case s of [] \<Rightarrow> None
                    | c # cs \<Rightarrow> if is_digit c then digits_acc s 0 else None)"

text \<open>\<open>int(s)\<close>: surrounding white space is skipped, then an optional sign and a digit
  group are read; anything else raises \<open>ValueError\<close>.\<close>

definition py_int :: "string \<Rightarrow> error + int" where
  "py_int s =
     (case skip_space s of
        [] \<Rightarrow> Inl ValueError
      | c # cs \<Rightarrow>
          (case (if c = CHR ''-'' then map_option (\<lambda>n. - int n) (digit_group cs)
                 else if c = CHR ''+'' then map_option int (digit_group cs)
                 else map_option int (digit_group (c # cs))) of
             None \<Rightarrow> Inl ValueError
           | Some v \<Rightarrow> Inr v))"

text \<open>
  A Python float is a binary64 number: a finite value is kept as the rational it is equal
  to, next to the negative zero, the two infinities and the not-a-number.
\<close>

datatype pyfloat = Finite rat | NegZero | PosInf | NegInf | NaN

text \<open>The integer nearest to \<open>a / b\<close> for \<open>b > 0\<close>, ties to even.\<close>

definition round_half_even :: "int \<Rightarrow> int \<Rightarrow> int" where
  "round_half_even a b =
     (let f = a div b; r = a mod b
      in if 2 * r < b then f else if b < 2 * r then f + 1
         else if even f then f else f + 1)"

text \<open>For \<open>a > 0\<close> and \<open>b > 0\<close>, the exponent \<open>e\<close> with \<open>2^e \<le> a / b < 2^(e+1)\<close>.\<close>

definition floor_log2 :: "int \<Rightarrow> int \<Rightarrow> int" where
  "floor_log2 a b =
     (let d = bitlen a - bitlen b
      in if (if 0 \<le> d then b * 2 ^ nat d \<le> a else b \<le> a * 2 ^ nat (- d)) then d else d - 1)"

text \<open>The binary64 number nearest to a rational (ties to even): 53 significant bits, least
  exponent \<open>-1074\<close>, overflow to infinity from \<open>2^1024\<close> on. The rational is \<open>a / b\<close> up to
  its sign, the result \<open>n * 2^p\<close>.\<close>

definition binary64 :: "rat \<Rightarrow> pyfloat" where
  "binary64 q =
     (if q = 0 then Finite 0
      else
        let a = \<bar>fst (quotient_of q)\<bar>;
            b = snd (quotient_of q);
            e = floor_log2 a b;
            p = max (e - 52) (- 1074);
            n = (if 0 \<le> p then round_half_even a (b * 2 ^ nat p)
                 else round_half_even (a * 2 ^ nat (- p)) b)
        in if (if 971 \<le> p then 2 ^ nat (1024 - p) \<le> n else False)
           then (if q < 0 then NegInf else PosInf)
           else if n = 0 then (if q < 0 then NegZero else Finite 0)
           else Finite ((if q < 0 then - 1 else 1) * of_int n * 2 powi p))"

definition lower :: "string \<Rightarrow> string" where
  "lower s = map (\<lambda>c. if CHR ''A'' \<le> c \<and> c \<le> CHR ''Z'' then char_of (of_char c + (32::nat)) else c) s"

text \<open>The digits of a group, underscores left out.\<close>

definition group_digits :: "string \<Rightarrow> nat" where
  "group_digits s = length (filter is_digit s)"

text \<open>An unsigned decimal literal \<open>digits [. digits] [e [sign] digits]\<close> with at least one
  digit before the exponent; the result is its exact value.\<close>

definition decimal_value :: "string \<Rightarrow> rat option" where
  "decimal_value s =
     (let mant = takeWhile (\<lambda>c. c \<noteq> CHR ''e'' \<and> c \<noteq> CHR ''E'') s;
          rest = dropWhile (\<lambda>c. c \<noteq> CHR ''e'' \<and> c \<noteq> CHR ''E'') s;
          ip = takeWhile (\<lambda>c. c \<noteq> CHR ''.'') mant;
          fp = (case dropWhile (\<lambda>c. c \<noteq> CHR ''.'') mant of [] \<Rightarrow> [] | _ # t \<Rightarrow> t);
          iv = (if ip = [] then Some 0 else digit_group ip);
          fv = (if fp = [] then Some 0 else digit_group fp);
          ev = (case rest of
                  [] \<Rightarrow> Some 0
                | _ # t \<Rightarrow>
                    (case t of
                       [] \<Rightarrow> None
                     | c # cs \<Rightarrow>
                         if c = CHR ''-'' then map_option (\<lambda>n. - int n) (digit_group cs)
                         else if c = CHR ''+'' then map_option int (digit_group cs)
                         else map_option int (digit_group t)))
      in if ip = [] \<and> fp = [] then None
         else (case (iv, fv, ev) of
                 (Some i, Some f, Some e) \<Rightarrow>
                   Some (of_nat (i * 10 ^ group_digits fp + f) * 10 powi (e - int (group_digits fp)))
               | _ \<Rightarrow> None))"

text \<open>\<open>float(s)\<close>: surrounding white space is skipped, then an optional sign and either
  \<open>inf\<close>, \<open>infinity\<close>, \<open>nan\<close> (in any case) or a decimal literal are read; the value of the
  literal is rounded to binary64. Anything else raises \<open>ValueError\<close>.\<close>

definition py_float :: "string \<Rightarrow> error + pyfloat" where
  "py_float s =
     (let t = skip_space s;
          neg = (t \<noteq> [] \<and> hd t = CHR ''-'');
          body = (if t \<noteq> [] \<and> (hd t = CHR ''-'' \<or> hd t = CHR ''+'') then tl t else t)
      in if lower body = ''inf'' \<or> lower body = ''infinity'' then Inr (if neg then NegInf else PosInf)
         else if lower body = ''nan'' then Inr NaN
         else (case decimal_value body of
                 None \<Rightarrow> Inl ValueError
               | Some q \<Rightarrow> Inr (if q = 0 then (if neg then NegZero else Finite 0)
                                else binary64 (if neg then - q else q))))"

text \<open>The numbers the scanner stores: an \<open>int\<close> or a \<open>float\<close>.\<close>

datatype pynum = PInt int | PFloat pyfloat

definition int_number :: "string \<Rightarrow> error + pynum" where
  "int_number s = (case py_int s of Inl e \<Rightarrow> Inl e | Inr v \<Rightarrow> Inr (PInt v))"

definition float_number :: "string \<Rightarrow> error + pynum" where
  "float_number s = (case py_float s of Inl e \<Rightarrow> Inl e | Inr v \<Rightarrow> Inr (PFloat v))"

section \<open>The specification scanner\<close>

text \<open>
  A schema entry handed to \<open>configspecParser\<close> is either a specification string or a
  section of the schema. A section lists its entries in the order its \<open>keys()\<close> method
  returns them (a list); every entry carries the comment lines recorded for its key.
\<close>

datatype cspec = SpecStr string | SpecSection "(string \<times> string list \<times> cspec) list"

text \<open>\<open>ConfigWindow.configspecParserExctractSections\<close> (lines 456 to 471).\<close>

definition configspecParserExctractSections :: "string \<Rightarrow> string \<Rightarrow> string list" where
  "configspecParserExctractSections attribute_name string =
     (let pos_init = str_find string (attribute_name @ ''('') 0
      in if pos_init \<ge> 0 then
           (let pos_init = pos_init + int (length (attribute_name @ ''(''));
                pos_end = str_find string '')'' (nat pos_init)
            in if pos_end > pos_init then str_split (slice string pos_init pos_end) (CHR '','')
               else [])
         else [])"

text \<open>The first \<open>while\<close> loop of \<open>configspecParser\<close> (lines 339 to 358), over the arguments
  of \<open>option(...)\<close>.\<close>

function option_loop :: "string list \<Rightarrow> nat \<Rightarrow> error + string list" where
  "option_loop string_list i =
     (if i < length string_list then
        and_then (getitem string_list i) (\<lambda>item.
        and_then (setitem string_list i (strip item)) (\<lambda>string_list.
        and_then (getitem string_list i) (\<lambda>item.
          if startswith item [dq] then
            and_then (setitem string_list i (strip_chars [dq] item))
              (\<lambda>string_list. option_loop string_list (i + 1))
          else if startswith item [sq] then
            and_then (setitem string_list i (strip_chars [sq] item))
              (\<lambda>string_list. option_loop string_list (i + 1))
          else
            and_then (delitem string_list i)
              (\<lambda>string_list. option_loop string_list i))))
      else Inr string_list)"
  by pat_completeness auto
termination
  by (relation "measure (\<lambda>(string_list, i). length string_list - i)")
     (auto simp: getitem_def setitem_def delitem_def split: if_splits)

declare option_loop.simps [simp del]

text \<open>\<open>try: slot = conv(element)\<close> \<open>except ValueError: pass\<close>.\<close>

definition try_number :: "(string \<Rightarrow> error + 'n) \<Rightarrow> string \<Rightarrow> 'n option \<Rightarrow> error + 'n option" where
  "try_number conv element slot =
     (case conv element of
        Inr v \<Rightarrow> Inr (Some v)
      | Inl e \<Rightarrow> if e = ValueError then Inr slot else Inl e)"

text \<open>
  The body of the second and of the third \<open>while\<close> loop, for one non-empty element (lines
  373 to 396 and 411 to 434). The two loops differ only in the conversion they call,
  \<open>int\<close> or \<open>float\<close>, which is the parameter \<open>conv\<close>.
\<close>

definition scan_element ::
  "(string \<Rightarrow> error + 'n) \<Rightarrow> string \<Rightarrow> 'n option \<Rightarrow> 'n option \<Rightarrow> error + ('n option \<times> 'n option)" where
  "scan_element conv element minimum maximum =
     (let element = strip element in
      and_then
        (if minimum = None then
           and_then (try_number conv element minimum) (\<lambda>minimum. Inr (minimum, maximum))
         else if maximum = None then
           and_then (try_number conv element maximum) (\<lambda>maximum. Inr (minimum, maximum))
         else Inr (minimum, maximum))
        (\<lambda>(minimum, maximum).
      and_then
        (if minimum = None \<and> str_contains ''min'' element then
           (let element = str_replace element ''min'' [];
                element = strip_chars '' ='' element
            in and_then (try_number conv element minimum) (\<lambda>minimum. Inr (element, minimum)))
         else Inr (element, minimum))
        (\<lambda>(element, minimum).
      and_then
        (if maximum = None \<and> str_contains ''max'' element then
           (let element = str_replace element ''max'' [];
                element = strip_chars '' ='' element
            in try_number conv element maximum)
         else Inr maximum)
        (\<lambda>maximum. Inr (minimum, maximum)))))"

text \<open>The second and the third \<open>while\<close> loop (lines 365 to 398 and 403 to 436).\<close>

function numeric_loop ::
  "(string \<Rightarrow> error + 'n) \<Rightarrow> string list \<Rightarrow> nat \<Rightarrow> 'n option \<Rightarrow> 'n option
     \<Rightarrow> error + (string list \<times> 'n option \<times> 'n option)" where
  "numeric_loop conv string_list i minimum maximum =
     (if i < length string_list then
        and_then (getitem string_list i) (\<lambda>element.
          if element = [] then
            and_then (delitem string_list i)
              (\<lambda>string_list. numeric_loop conv string_list i minimum maximum)
          else
            and_then (scan_element conv element minimum maximum)
              (\<lambda>(minimum, maximum). numeric_loop conv string_list (i + 1) minimum maximum))
      else Inr (string_list, minimum, maximum))"
  by pat_completeness auto
termination
  by (relation "measure (\<lambda>(conv, string_list, i, minimum, maximum). length string_list - i)")
     (auto simp: getitem_def delitem_def split: if_splits)

declare numeric_loop.simps [simp del]

text \<open>The dictionary that \<open>configspecParser\<close> returns, with its four keys.\<close>

record constraint =
  minimum :: "pynum option"
  maximum :: "pynum option"
  string_list :: "string list"
  comment :: string

text \<open>\<open>ConfigWindow.configspecParser\<close> (lines 307 to 454).\<close>

definition configspecParser :: "cspec \<Rightarrow> string list \<Rightarrow> error + constraint" where
  "configspecParser configspec comments =
     and_then
       (case configspec of
          SpecSection entries \<Rightarrow>
            (case map_of entries ''__many__'' of
               Some (_, SpecSection many) \<Rightarrow> Inr ([] # map fst many, None, None)
             | _ \<Rightarrow> Inr ([], None, None))
        | SpecStr s \<Rightarrow>
            and_then (option_loop (configspecParserExctractSections ''option'' s) 0)
              (\<lambda>string_list.
            and_then
              (if length string_list \<le> 0 then
                 (let string_list = configspecParserExctractSections ''integer'' s;
                      string_list = (if length string_list \<le> 0
                                     then configspecParserExctractSections ''string'' s
                                     else string_list)
                  in numeric_loop int_number string_list 0 None None)
               else Inr (string_list, None, None))
              (\<lambda>(string_list, minimum, maximum).
            if length string_list \<le> 0 then
              numeric_loop float_number (configspecParserExctractSections ''float'' s) 0
                minimum maximum
            else Inr (string_list, minimum, maximum))))
       (\<lambda>(string_list, minimum, maximum).
          let comments_string =
                (if length comments > 0 then
                   (let comments_string = fold (\<lambda>comment acc. acc @ strip comment) comments [];
                        comments_string = strip_chars '' #'' comments_string
                    in str_replace comments_string ''#'' [newline])
                 else [])
          in Inr \<lparr>minimum = minimum, maximum = maximum, string_list = string_list,
                  comment = comments_string\<rparr>)"

subsection \<open>The loops of the scanner as list functions\<close>

lemma and_then_Inr [simp]: "and_then (Inr x) f = f x"
  by (simp add: and_then_def)

lemma and_then_Inl [simp]: "and_then (Inl e) f = Inl e"
  by (simp add: and_then_def)

text \<open>The first loop keeps the arguments that, once stripped, start with a quote, and
  strips that quote character from both ends of each.\<close>

definition starts_with_quote :: "string \<Rightarrow> bool" where
  "starts_with_quote s = (startswith s [dq] \<or> startswith s [sq])"

definition unquote :: "string \<Rightarrow> string" where
  "unquote s = (if startswith s [dq] then strip_chars [dq] s else strip_chars [sq] s)"

definition option_tokens :: "string list \<Rightarrow> string list" where
  "option_tokens args = map unquote (filter starts_with_quote (map strip args))"

lemma option_loop_eq:
  "i \<le> length xs \<Longrightarrow> option_loop xs i = Inr (take i xs @ option_tokens (drop i xs))"
proof (induction xs i rule: option_loop.induct)
  case (1 string_list i)
  show ?case
  proof (cases "i < length string_list")
    case False
    with "1.prems" show ?thesis
      by (subst option_loop.simps) (simp add: option_tokens_def)
  next
    case True
    let ?x = "strip (string_list ! i)"
    let ?sl = "string_list[i := ?x]"
    have d: "drop i string_list = string_list ! i # drop (Suc i) string_list"
      using True by (simp add: Cons_nth_drop_Suc)
    have g1: "getitem string_list i = Inr (string_list ! i)" using True by (simp add: getitem_def)
    have s1: "setitem string_list i ?x = Inr ?sl" using True by (simp add: setitem_def)
    have g2: "getitem ?sl i = Inr ?x" using True by (simp add: getitem_def)
    show ?thesis
    proof (cases "startswith ?x [dq]")
      case dqc: True
      have s2: "setitem ?sl i (strip_chars [dq] ?x) = Inr (string_list[i := strip_chars [dq] ?x])"
        using True by (simp add: setitem_def)
      have ih: "option_loop (string_list[i := strip_chars [dq] ?x]) (i + 1)
          = Inr (take (i + 1) (string_list[i := strip_chars [dq] ?x]) @ option_tokens (drop (i + 1) (string_list[i := strip_chars [dq] ?x])))"
        using "1.IH"(1)[OF True g1 s1 g2 dqc s2] True by simp
      have "option_loop string_list i = option_loop (string_list[i := strip_chars [dq] ?x]) (i + 1)"
        by (subst option_loop.simps) (simp add: True g1 s1 g2 dqc s2)
      also note ih
      finally show ?thesis using True dqc
        by (simp add: d option_tokens_def starts_with_quote_def unquote_def take_Suc_conv_app_nth)
    next
      case ndq: False
      show ?thesis
      proof (cases "startswith ?x [sq]")
        case sqc: True
        have s2: "setitem ?sl i (strip_chars [sq] ?x) = Inr (string_list[i := strip_chars [sq] ?x])"
          using True by (simp add: setitem_def)
        have ih: "option_loop (string_list[i := strip_chars [sq] ?x]) (i + 1)
            = Inr (take (i + 1) (string_list[i := strip_chars [sq] ?x]) @ option_tokens (drop (i + 1) (string_list[i := strip_chars [sq] ?x])))"
          using "1.IH"(2)[OF True g1 s1 g2 ndq sqc s2] True by simp
        have "option_loop string_list i = option_loop (string_list[i := strip_chars [sq] ?x]) (i + 1)"
          by (subst option_loop.simps) (simp add: True g1 s1 g2 ndq sqc s2)
        also note ih
        finally show ?thesis using True ndq sqc
          by (simp add: d option_tokens_def starts_with_quote_def unquote_def take_Suc_conv_app_nth)
      next
        case nsq: False
        let ?del = "take i ?sl @ drop (Suc i) ?sl"
        have dl: "delitem ?sl i = Inr ?del" using True by (simp add: delitem_def)
        have len: "i \<le> length ?del" using True by simp
        have ih: "option_loop ?del i = Inr (take i ?del @ option_tokens (drop i ?del))"
          using "1.IH"(3)[OF True g1 s1 g2 ndq nsq dl] len by blast
        have "option_loop string_list i = option_loop ?del i"
          by (subst option_loop.simps) (simp add: True g1 s1 g2 ndq nsq dl)
        also note ih
        finally show ?thesis using True ndq nsq
          by (simp add: d option_tokens_def starts_with_quote_def)
      qed
    qed
  qed
qed

text \<open>A conversion that raises nothing but \<open>ValueError\<close>, and its result as an option.\<close>

definition only_ValueError :: "(string \<Rightarrow> error + 'n) \<Rightarrow> bool" where
  "only_ValueError conv = (\<forall>t e. conv t = Inl e \<longrightarrow> e = ValueError)"

definition parsed :: "(string \<Rightarrow> error + 'n) \<Rightarrow> string \<Rightarrow> 'n option" where
  "parsed conv t = (case conv t of Inr v \<Rightarrow> Some v | Inl e \<Rightarrow> None)"

lemma try_number_eq:
  "only_ValueError conv \<Longrightarrow>
   try_number conv t slot = Inr (case parsed conv t of Some v \<Rightarrow> Some v | None \<Rightarrow> slot)"
  by (cases "conv t") (auto simp: try_number_def parsed_def only_ValueError_def)

lemma only_ValueError_int: "only_ValueError int_number"
  by (auto simp: only_ValueError_def int_number_def py_int_def split: sum.splits list.splits option.splits if_splits)

lemma only_ValueError_float: "only_ValueError float_number"
  by (auto simp: only_ValueError_def float_number_def py_float_def Let_def split: sum.splits list.splits option.splits if_splits)

lemma scan_element_total:
  "only_ValueError conv \<Longrightarrow> \<exists>p. scan_element conv e mn mx = Inr p"
  by (simp add: scan_element_def Let_def try_number_eq)

text \<open>The loop body as a function on the pair of slots.\<close>

definition scan_total ::
  "(string \<Rightarrow> error + 'n) \<Rightarrow> string \<Rightarrow> 'n option \<times> 'n option \<Rightarrow> 'n option \<times> 'n option" where
  "scan_total conv e s = (case scan_element conv e (fst s) (snd s) of Inr p \<Rightarrow> p | Inl _ \<Rightarrow> s)"

lemma scan_element_scan_total:
  "only_ValueError conv \<Longrightarrow> scan_element conv e mn mx = Inr (scan_total conv e (mn, mx))"
  using scan_element_total[of conv e mn mx] by (auto simp: scan_total_def)

lemma numeric_loop_eq:
  "only_ValueError conv \<Longrightarrow> i \<le> length xs \<Longrightarrow>
   numeric_loop conv xs i mn mx =
     Inr (take i xs @ filter (\<lambda>a. a \<noteq> []) (drop i xs),
          fold (scan_total conv) (filter (\<lambda>a. a \<noteq> []) (drop i xs)) (mn, mx))"
proof (induction conv xs i mn mx rule: numeric_loop.induct)
  case (1 conv string_list i mn mx)
  show ?case
  proof (cases "i < length string_list")
    case False
    with "1.prems" show ?thesis by (subst numeric_loop.simps) simp
  next
    case True
    have d: "drop i string_list = string_list ! i # drop (Suc i) string_list"
      using True by (simp add: Cons_nth_drop_Suc)
    have g1: "getitem string_list i = Inr (string_list ! i)" using True by (simp add: getitem_def)
    show ?thesis
    proof (cases "string_list ! i = []")
      case e: True
      let ?del = "take i string_list @ drop (Suc i) string_list"
      have dl: "delitem string_list i = Inr ?del" using True by (simp add: delitem_def)
      have len: "i \<le> length ?del" using True by simp
      have ih: "numeric_loop conv ?del i mn mx =
         Inr (take i ?del @ filter (\<lambda>a. a \<noteq> []) (drop i ?del),
              fold (scan_total conv) (filter (\<lambda>a. a \<noteq> []) (drop i ?del)) (mn, mx))"
        using "1.IH"(1)[OF True g1 e dl "1.prems"(1) len] .
      have "numeric_loop conv string_list i mn mx = numeric_loop conv ?del i mn mx"
        by (subst numeric_loop.simps) (simp add: True g1 e dl)
      also note ih
      finally show ?thesis using True e by (simp add: d)
    next
      case ne: False
      obtain mn' mx' where st: "scan_total conv (string_list ! i) (mn, mx) = (mn', mx')"
        by (cases "scan_total conv (string_list ! i) (mn, mx)") auto
      have se: "scan_element conv (string_list ! i) mn mx = Inr (mn', mx')"
        using scan_element_scan_total[OF "1.prems"(1)] st by simp
      have len: "i + 1 \<le> length string_list" using True by simp
      have ih: "numeric_loop conv string_list (i + 1) mn' mx' =
         Inr (take (i + 1) string_list @ filter (\<lambda>a. a \<noteq> []) (drop (i + 1) string_list),
              fold (scan_total conv) (filter (\<lambda>a. a \<noteq> []) (drop (i + 1) string_list)) (mn', mx'))"
        using "1.IH"(2)[OF True g1 ne se _ "1.prems"(1) len] by simp
      have "numeric_loop conv string_list i mn mx = numeric_loop conv string_list (i + 1) mn' mx'"
        by (subst numeric_loop.simps) (simp add: True g1 ne se)
      also note ih
      finally show ?thesis using True ne st by (simp add: d take_Suc_conv_app_nth)
    qed
  qed
qed








text \<open>The texts that the loop body can hand to the conversion for one element: the stripped
  element; when that contains \<open>min\<close>, what is left of it without \<open>min\<close> and without the
  spaces and equal signs at its ends; and, of each of the two that contains \<open>max\<close>, what
  is left without \<open>max\<close> in the same way.\<close>

definition candidates :: "string \<Rightarrow> string list" where
  "candidates e =
     (let e0 = strip e;
          e1 = strip_chars '' ='' (str_replace e0 ''min'' [])
      in [e0]
         @ (if str_contains ''min'' e0 then [e1] else [])
         @ (if str_contains ''max'' e0 then [strip_chars '' ='' (str_replace e0 ''max'' [])] else [])
         @ (if str_contains ''min'' e0 \<and> str_contains ''max'' e1
            then [strip_chars '' ='' (str_replace e1 ''max'' [])] else []))"

lemma scan_total_all_fail:
  assumes "only_ValueError conv" and "\<forall>t \<in> set (candidates e). parsed conv t = None"
  shows "scan_total conv e (mn, mx) = (mn, mx)"
  using assms(2)
  by (auto simp: scan_total_def scan_element_def Let_def try_number_eq[OF assms(1)] candidates_def)


lemma fold_scan_total_filter:
  assumes "only_ValueError conv"
  shows "fold (scan_total conv) (filter (\<lambda>e. \<not> (\<forall>t \<in> set (candidates e). parsed conv t = None)) es) s
           = fold (scan_total conv) es s"
proof (induction es arbitrary: s)
  case Nil
  show ?case by simp
next
  case (Cons e es)
  obtain mn mx where s: "s = (mn, mx)" by (cases s)
  show ?case
    using Cons scan_total_all_fail[OF assms, of e mn mx] by (simp add: s)
qed

lemma fold_append_strip:
  "fold (\<lambda>comment acc. acc @ strip comment) cs acc = acc @ concat (map strip cs)"
  by (induction cs arbitrary: acc) auto

text \<open>The comment that lines 438 to 445 build.\<close>

definition comment_text :: "string list \<Rightarrow> string" where
  "comment_text comments =
     str_replace (strip_chars '' #'' (concat (map strip comments))) ''#'' [newline]"

lemma comment_text_Nil: "comment_text [] = []"
  by (simp add: comment_text_def strip_chars_def strip_where_def str_replace_def)

text \<open>The list and the two slots that the three loops leave for a specification string.\<close>

definition scan_str :: "string \<Rightarrow> string list \<times> pynum option \<times> pynum option" where
  "scan_str s =
     (let toks = option_tokens (configspecParserExctractSections ''option'' s)
      in if toks \<noteq> [] then (toks, None, None)
         else
           let a1 = configspecParserExctractSections ''integer'' s;
               a2 = (if a1 = [] then configspecParserExctractSections ''string'' s else a1);
               sl = filter (\<lambda>a. a \<noteq> []) a2;
               mm = fold (scan_total int_number) sl (None, None)
           in if sl \<noteq> [] then (sl, mm)
              else
                let a3 = filter (\<lambda>a. a \<noteq> []) (configspecParserExctractSections ''float'' s)
                in (a3, fold (scan_total float_number) a3 mm))"

lemma configspecParser_SpecStr:
  "configspecParser (SpecStr s) comments =
     Inr \<lparr>minimum = fst (snd (scan_str s)), maximum = snd (snd (scan_str s)),
          string_list = fst (scan_str s), comment = comment_text comments\<rparr>"
proof -
  have c: "(if length comments > 0 then
                   (let comments_string = fold (\<lambda>comment acc. acc @ strip comment) comments [];
                        comments_string = strip_chars '' #'' comments_string
                    in str_replace comments_string ''#'' [newline])
                 else []) = comment_text comments"
    by (cases comments) (simp_all add: comment_text_Nil, simp add: comment_text_def fold_append_strip)
  have o: "\<And>xs. option_loop xs 0 = Inr (option_tokens xs)"
    using option_loop_eq[of 0] by simp
  have n: "\<And>conv xs mn mx. only_ValueError conv \<Longrightarrow> numeric_loop conv xs 0 mn mx =
     Inr (filter (\<lambda>a. a \<noteq> []) xs, fold (scan_total conv) (filter (\<lambda>a. a \<noteq> []) xs) (mn, mx))"
    using numeric_loop_eq[where i = 0] by simp
  show ?thesis
    unfolding configspecParser_def c
    by (simp add: o n only_ValueError_int only_ValueError_float scan_str_def Let_def split: prod.splits)
qed

lemma configspecParser_SpecSection:
  "configspecParser (SpecSection entries) comments =
     Inr \<lparr>minimum = None, maximum = None,
          string_list = (case map_of entries ''__many__'' of
                           Some (cm, SpecSection many) \<Rightarrow> [] # map fst many
                         | _ \<Rightarrow> []),
          comment = comment_text comments\<rparr>"
proof -
  have c: "(if length comments > 0 then
                   (let comments_string = fold (\<lambda>comment acc. acc @ strip comment) comments [];
                        comments_string = strip_chars '' #'' comments_string
                    in str_replace comments_string ''#'' [newline])
                 else []) = comment_text comments"
    by (cases comments) (simp_all add: comment_text_Nil, simp add: comment_text_def fold_append_strip)
  show ?thesis
    unfolding configspecParser_def c
    by (simp split: option.splits prod.splits cspec.splits)
qed

section \<open>Properties of the specification scanner\<close>


lemma parsed_Inl: "conv t = Inl e \<Longrightarrow> parsed conv t = None"
  by (simp add: parsed_def)



lemma replace_from_hash:
  "replace_from t ''#'' new = concat (map (\<lambda>c. if c = CHR ''#'' then new else [c]) t)"
  by (induction t) (simp_all add: startswith_def)

lemma comment_text_replace:
  "comment_text comments =
     concat (map (\<lambda>c. if c = CHR ''#'' then [CHR 0x0A] else [c])
       (strip_chars '' #'' (concat (map strip comments))))"
  by (simp add: comment_text_def str_replace_def replace_from_hash newline_def)

lemma isspace_set:
  "isspace = (\<lambda>c. c \<in> {CHR 0x09, CHR 0x0A, CHR 0x0B, CHR 0x0C, CHR 0x0D,
                         CHR 0x1C, CHR 0x1D, CHR 0x1E, CHR 0x1F, CHR 0x20})"
  by (rule ext) (simp add: isspace_def)

lemma strip_prim:
  "strip = (\<lambda>s. rev (dropWhile (\<lambda>c. c \<in> {CHR 0x09, CHR 0x0A, CHR 0x0B, CHR 0x0C, CHR 0x0D,
                                          CHR 0x1C, CHR 0x1D, CHR 0x1E, CHR 0x1F, CHR 0x20})
                    (rev (dropWhile (\<lambda>c. c \<in> {CHR 0x09, CHR 0x0A, CHR 0x0B, CHR 0x0C, CHR 0x0D,
                                          CHR 0x1C, CHR 0x1D, CHR 0x1E, CHR 0x1F, CHR 0x20}) s))))"
  by (rule ext) (simp only: strip_def strip_where_def isspace_set)

lemma strip_chars_prim:
  "strip_chars '' #'' t =
     rev (dropWhile (\<lambda>c. c = CHR '' '' \<or> c = CHR ''#'')
       (rev (dropWhile (\<lambda>c. c = CHR '' '' \<or> c = CHR ''#'') t)))"
  by (simp add: strip_chars_def strip_where_def)

lemma comment_text_prim:
  "comment_text comments =
     concat (map (\<lambda>c. if c = CHR ''#'' then [CHR 0x0A] else [c])
       (rev (dropWhile (\<lambda>c. c = CHR '' '' \<or> c = CHR ''#'')
         (rev (dropWhile (\<lambda>c. c = CHR '' '' \<or> c = CHR ''#'')
           (concat (map (\<lambda>s. rev (dropWhile (\<lambda>c. c \<in> {CHR 0x09, CHR 0x0A, CHR 0x0B, CHR 0x0C, CHR 0x0D,
                                                        CHR 0x1C, CHR 0x1D, CHR 0x1E, CHR 0x1F, CHR 0x20})
                                 (rev (dropWhile (\<lambda>c. c \<in> {CHR 0x09, CHR 0x0A, CHR 0x0B, CHR 0x0C, CHR 0x0D,
                                                        CHR 0x1C, CHR 0x1D, CHR 0x1E, CHR 0x1F, CHR 0x20}) s))))
                        comments)))))))"
  unfolding comment_text_replace strip_chars_prim
  by (subst strip_prim) (rule refl)

lemma strip_where_hd:
  assumes "P c"
  shows "take 1 (strip_where P s) \<noteq> [c]"
proof (cases "strip_where P s")
  case Nil
  show ?thesis unfolding Nil by simp
next
  case (Cons a u)
  let ?t = "dropWhile P s"
  have "\<exists>v. ?t = rev (dropWhile P (rev ?t)) @ v"
    by (metis rev_append rev_rev_ident takeWhile_dropWhile_id)
  then obtain v where "?t = (a # u) @ v" using Cons unfolding strip_where_def by auto
  then have "hd ?t = a" "?t \<noteq> []" by auto
  then have "\<not> P a" using hd_dropWhile by metis
  then show ?thesis unfolding Cons using assms by auto
qed

lemma replace_hash_no_hash:
  "CHR ''#'' \<notin> set (concat (map (\<lambda>c. if c = CHR ''#'' then [CHR 0x0A] else [c]) t))"
  by (induction t) auto

lemma comment_text_no_hash: "CHR ''#'' \<notin> set (comment_text comments)"
  unfolding comment_text_replace by (rule replace_hash_no_hash)

lemma comment_text_hd:
  "take 1 (comment_text comments) \<noteq> ''#'' \<and> take 1 (comment_text comments) \<noteq> '' ''"
proof -
  let ?t = "strip_chars '' #'' (concat (map strip comments))"
  have t: "take 1 ?t \<noteq> ''#''" "take 1 ?t \<noteq> '' ''"
    unfolding strip_chars_def by (rule strip_where_hd, simp)+
  show ?thesis
  proof (cases ?t)
    case Nil
    show ?thesis unfolding comment_text_replace Nil by simp
  next
    case (Cons a u)
    with t have "a \<noteq> CHR ''#''" "a \<noteq> CHR '' ''" by auto
    then show ?thesis unfolding comment_text_replace Cons by simp
  qed
qed

lemma comment_text_examples:
  "comment_text [''# first part'', ''# second part''] = ''first part'' @ [CHR 0x0A] @ '' second part''"
  "comment_text [''  # first part  '', [CHR 0x09] @ ''# second part'' @ [CHR 0x0A]]
     = ''first part'' @ [CHR 0x0A] @ '' second part''"
  by code_simp+

lemma configspecParser_comment:
  "\<exists>r. configspecParser configspec comments = Inr r \<and> comment r = comment_text comments"
  by (cases configspec) (simp_all add: configspecParser_SpecStr configspecParser_SpecSection)

text \<open>
  Claim C5. For every schema entry and every list of comment lines the scanner returns a
  record whose comment is: the fragments, each without the white space at its two ends,
  concatenated; then without the spaces and hash signs at the two ends of the whole; then
  with every hash sign that is left replaced by a line feed. So no hash sign is left in the
  comment, and it begins with neither a hash sign nor a space. With the two lines
  \<open># first part\<close> and \<open># second part\<close> the comment is \<open>first part\<close>, a line feed,
  \<open> second part\<close>, and it is the same when the two lines stand between spaces, a tab and a
  line feed; with no comment line it is empty.
\<close>

theorem comment_assembly:
  "(\<exists>r. configspecParser configspec comments = Inr r \<and>
        comment r =
          concat (map (\<lambda>c. if c = CHR ''#'' then [CHR 0x0A] else [c])
            (rev (dropWhile (\<lambda>c. c = CHR '' '' \<or> c = CHR ''#'')
              (rev (dropWhile (\<lambda>c. c = CHR '' '' \<or> c = CHR ''#'')
                (concat (map (\<lambda>s. rev (dropWhile (\<lambda>c. c \<in> {CHR 0x09, CHR 0x0A, CHR 0x0B, CHR 0x0C, CHR 0x0D,
                                                        CHR 0x1C, CHR 0x1D, CHR 0x1E, CHR 0x1F, CHR 0x20})
                                 (rev (dropWhile (\<lambda>c. c \<in> {CHR 0x09, CHR 0x0A, CHR 0x0B, CHR 0x0C, CHR 0x0D,
                                                        CHR 0x1C, CHR 0x1D, CHR 0x1E, CHR 0x1F, CHR 0x20}) s))))
                        comments))))))) \<and>
        CHR ''#'' \<notin> set (comment r) \<and>
        take 1 (comment r) \<noteq> ''#'' \<and> take 1 (comment r) \<noteq> '' '')
   \<and> (\<exists>r. configspecParser configspec [''# first part'', ''# second part''] = Inr r \<and>
        comment r = ''first part'' @ [CHR 0x0A] @ '' second part'')
   \<and> (\<exists>r. configspecParser configspec
              [''  # first part  '', [CHR 0x09] @ ''# second part'' @ [CHR 0x0A]] = Inr r \<and>
        comment r = ''first part'' @ [CHR 0x0A] @ '' second part'')
   \<and> (\<exists>r. configspecParser configspec [] = Inr r \<and> comment r = [])"
proof (intro conjI)
  from configspecParser_comment[of configspec comments] obtain r where
    r: "configspecParser configspec comments = Inr r" "comment r = comment_text comments" by blast
  have "comment r = comment_text comments" by (rule r(2))
  also note comment_text_prim
  finally have p: "comment r =
          concat (map (\<lambda>c. if c = CHR ''#'' then [CHR 0x0A] else [c])
            (rev (dropWhile (\<lambda>c. c = CHR '' '' \<or> c = CHR ''#'')
              (rev (dropWhile (\<lambda>c. c = CHR '' '' \<or> c = CHR ''#'')
                (concat (map (\<lambda>s. rev (dropWhile (\<lambda>c. c \<in> {CHR 0x09, CHR 0x0A, CHR 0x0B, CHR 0x0C, CHR 0x0D,
                                                        CHR 0x1C, CHR 0x1D, CHR 0x1E, CHR 0x1F, CHR 0x20})
                                 (rev (dropWhile (\<lambda>c. c \<in> {CHR 0x09, CHR 0x0A, CHR 0x0B, CHR 0x0C, CHR 0x0D,
                                                        CHR 0x1C, CHR 0x1D, CHR 0x1E, CHR 0x1F, CHR 0x20}) s))))
                        comments)))))))" .
  have h: "CHR ''#'' \<notin> set (comment r)"
    "take 1 (comment r) \<noteq> ''#''" "take 1 (comment r) \<noteq> '' ''"
    unfolding r(2) using comment_text_no_hash[of comments] comment_text_hd[of comments] by blast+
  show "\<exists>r. configspecParser configspec comments = Inr r \<and>
        comment r =
          concat (map (\<lambda>c. if c = CHR ''#'' then [CHR 0x0A] else [c])
            (rev (dropWhile (\<lambda>c. c = CHR '' '' \<or> c = CHR ''#'')
              (rev (dropWhile (\<lambda>c. c = CHR '' '' \<or> c = CHR ''#'')
                (concat (map (\<lambda>s. rev (dropWhile (\<lambda>c. c \<in> {CHR 0x09, CHR 0x0A, CHR 0x0B, CHR 0x0C, CHR 0x0D,
                                                        CHR 0x1C, CHR 0x1D, CHR 0x1E, CHR 0x1F, CHR 0x20})
                                 (rev (dropWhile (\<lambda>c. c \<in> {CHR 0x09, CHR 0x0A, CHR 0x0B, CHR 0x0C, CHR 0x0D,
                                                        CHR 0x1C, CHR 0x1D, CHR 0x1E, CHR 0x1F, CHR 0x20}) s))))
                        comments))))))) \<and>
        CHR ''#'' \<notin> set (comment r) \<and>
        take 1 (comment r) \<noteq> ''#'' \<and> take 1 (comment r) \<noteq> '' ''"
    by (intro exI[of _ r] conjI) (rule r(1) p h)+
next
  show "\<exists>r. configspecParser configspec [''# first part'', ''# second part''] = Inr r \<and>
        comment r = ''first part'' @ [CHR 0x0A] @ '' second part''"
    using configspecParser_comment[of configspec "[''# first part'', ''# second part'']"]
    unfolding comment_text_examples(1) .
next
  show "\<exists>r. configspecParser configspec
              [''  # first part  '', [CHR 0x09] @ ''# second part'' @ [CHR 0x0A]] = Inr r \<and>
        comment r = ''first part'' @ [CHR 0x0A] @ '' second part''"
    using configspecParser_comment[of configspec
        "[''  # first part  '', [CHR 0x09] @ ''# second part'' @ [CHR 0x0A]]"]
    unfolding comment_text_examples(2) .
next
  show "\<exists>r. configspecParser configspec [] = Inr r \<and> comment r = []"
    using configspecParser_comment[of configspec "[]"] unfolding comment_text_Nil .
qed

text \<open>
  Claim C4. For a schema section with a key \<open>__many__\<close> whose value is itself a section, the
  scanner returns the keys of that inner section in their order, after one empty string,
  and leaves minimum and maximum unset; for a section without such a key the list is empty
  and no bound is set.
\<close>

theorem table_schema_tokens:
  "(map_of entries ''__many__'' = Some (cm, SpecSection many) \<longrightarrow>
      (\<exists>r. configspecParser (SpecSection entries) comments = Inr r \<and>
           string_list r = [] # map fst many \<and> minimum r = None \<and> maximum r = None))
   \<and> ((\<forall>cm many. map_of entries ''__many__'' \<noteq> Some (cm, SpecSection many)) \<longrightarrow>
      (\<exists>r. configspecParser (SpecSection entries) comments = Inr r \<and>
           string_list r = [] \<and> minimum r = None \<and> maximum r = None))"
  unfolding configspecParser_SpecSection
  by (auto split: option.splits cspec.splits)

theorem table_schema_tokens_witness:
  "map_of [(''__many__'', [], SpecSection [(''diameter'', [], SpecStr ''float(default = 3.0)''),
                                           (''speed'', [], SpecStr ''float(default = 6000)'')])]
      ''__many__''
     = Some ([], SpecSection [(''diameter'', [], SpecStr ''float(default = 3.0)''),
                              (''speed'', [], SpecStr ''float(default = 6000)'')])
   \<and> (\<exists>r. configspecParser
           (SpecSection [(''__many__'', [], SpecSection [(''diameter'', [], SpecStr ''float(default = 3.0)''),
                                           (''speed'', [], SpecStr ''float(default = 6000)'')])]) [] = Inr r \<and>
         string_list r = [[], ''diameter'', ''speed''] \<and> minimum r = None \<and> maximum r = None)
   \<and> (\<forall>cm many. map_of [(''diameter'', [''# the diameter''], SpecStr ''float(default = 3.0)'')] ''__many__''
          \<noteq> Some (cm, SpecSection many))
   \<and> (\<exists>r. configspecParser (SpecSection [(''diameter'', [''# the diameter''], SpecStr ''float(default = 3.0)'')]) [] = Inr r \<and>
         string_list r = [] \<and> minimum r = None \<and> maximum r = None)"
  using table_schema_tokens[of "[(''__many__'', [], SpecSection [(''diameter'', [], SpecStr ''float(default = 3.0)''),
                                           (''speed'', [], SpecStr ''float(default = 6000)'')])]"
        "[]" "[(''diameter'', [], SpecStr ''float(default = 3.0)''),
                              (''speed'', [], SpecStr ''float(default = 6000)'')]" "[]"]
    table_schema_tokens[of "[(''diameter'', [''# the diameter''], SpecStr ''float(default = 3.0)'')]" "[]" "[]" "[]"]
  by simp



text \<open>The claim's reading of the option branch.\<close>

definition trim_spaces :: "string \<Rightarrow> string" where
  "trim_spaces a = strip_chars '' '' a"

definition wrapped_in_quotes :: "string \<Rightarrow> bool" where
  "wrapped_in_quotes a =
     (length a \<ge> 2 \<and> ((hd a = sq \<and> last a = sq) \<or> (hd a = dq \<and> last a = dq)))"

definition spec_option_tokens :: "string list \<Rightarrow> string list" where
  "spec_option_tokens args =
     map (\<lambda>a. butlast (tl a)) (filter wrapped_in_quotes (map trim_spaces args))"

text \<open>
  Claim C3, as stated, fails: in \<open>option('mm', 'in)\<close> the second argument opens with a quote
  and closes with none, so it is not wrapped in a pair of quotes, and the scanner keeps it.
\<close>

theorem option_wrapped_counterexample:
  \<open>configspecParser (SpecStr ''option('mm', 'in)'') [] =
     Inr \<lparr>minimum = None, maximum = None, string_list = [''mm'', ''in''], comment = []\<rparr>
   \<and> spec_option_tokens (configspecParserExctractSections ''option'' ''option('mm', 'in)'') = [''mm'']\<close>
  by code_simp

text \<open>
  Claim C3, amended. When \<open>option(\<close> is found and a closing parenthesis follows its
  arguments, the arguments are the pieces between the commas. The loop over them keeps an
  argument if and only if, once stripped of surrounding whitespace, it starts with a
  single or a double quote; a kept argument loses every leading and trailing occurrence
  of that quote character and the kept arguments stay in their order. When at least one
  argument is kept, the kept arguments are the list the scanner returns, with both bounds
  unset.
\<close>

theorem option_branch_tokens:
  "(0 \<le> str_find s ''option('' 0 \<and>
    str_find s ''option('' 0 + 7 < str_find s '')'' (nat (str_find s ''option('' 0 + 7)) \<longrightarrow>
      configspecParserExctractSections ''option'' s =
        str_split (slice s (str_find s ''option('' 0 + 7)
                     (str_find s '')'' (nat (str_find s ''option('' 0 + 7)))) (CHR '',''))
   \<and> option_loop args 0 = Inr (map unquote (filter starts_with_quote (map strip args)))
   \<and> (map unquote (filter starts_with_quote (map strip (configspecParserExctractSections ''option'' s))) \<noteq> [] \<longrightarrow>
       (\<exists>r. configspecParser (SpecStr s) comments = Inr r \<and>
            string_list r =
              map unquote (filter starts_with_quote (map strip (configspecParserExctractSections ''option'' s))) \<and>
            minimum r = None \<and> maximum r = None))"
proof (intro conjI impI)
  assume "0 \<le> str_find s ''option('' 0 \<and>
    str_find s ''option('' 0 + 7 < str_find s '')'' (nat (str_find s ''option('' 0 + 7))"
  then show "configspecParserExctractSections ''option'' s =
        str_split (slice s (str_find s ''option('' 0 + 7)
                     (str_find s '')'' (nat (str_find s ''option('' 0 + 7)))) (CHR '','')"
    by (simp add: configspecParserExctractSections_def Let_def)
next
  show "option_loop args 0 = Inr (map unquote (filter starts_with_quote (map strip args)))"
    using option_loop_eq[of 0 args] by (simp add: option_tokens_def)
next
  assume "map unquote (filter starts_with_quote (map strip (configspecParserExctractSections ''option'' s))) \<noteq> []"
  then show "\<exists>r. configspecParser (SpecStr s) comments = Inr r \<and>
            string_list r =
              map unquote (filter starts_with_quote (map strip (configspecParserExctractSections ''option'' s))) \<and>
            minimum r = None \<and> maximum r = None"
    unfolding configspecParser_SpecStr by (simp add: scan_str_def option_tokens_def)
qed

theorem option_branch_tokens_witness:
  \<open>str_find ''option('mm','in', default='mm')'' ''option('' 0 = 0
   \<and> str_find ''option('mm','in', default='mm')'' '')'' 7 = 30
   \<and> configspecParserExctractSections ''option'' ''option('mm','in', default='mm')'' =
        [sq # ''mm'' @ [sq], sq # ''in'' @ [sq], '' default='' @ sq # ''mm'' @ [sq]]
   \<and> option_loop [sq # ''mm'' @ [sq], sq # ''in'' @ [sq], '' default='' @ sq # ''mm'' @ [sq]] 0
        = Inr [''mm'', ''in'']
   \<and> (\<exists>r. configspecParser (SpecStr ''option('mm','in', default='mm')'') [] = Inr r \<and>
            string_list r = [''mm'', ''in''] \<and> minimum r = None \<and> maximum r = None)\<close>
proof -
  let ?s = \<open>''option('mm','in', default='mm')''\<close>
  let ?args = "[sq # ''mm'' @ [sq], sq # ''in'' @ [sq], '' default='' @ sq # ''mm'' @ [sq]]"
  have f: "str_find ?s ''option('' 0 = 0" "str_find ?s '')'' 7 = 30" by code_simp+
  have e: "configspecParserExctractSections ''option'' ?s = ?args" by code_simp
  have t: "map unquote (filter starts_with_quote (map strip ?args)) = [''mm'', ''in'']" by code_simp
  note T = option_branch_tokens[of ?s ?args "[]"]
  have l: "option_loop ?args 0 = Inr [''mm'', ''in'']"
    using T[THEN conjunct2, THEN conjunct1] by (simp only: t)
  have ne: "map unquote (filter starts_with_quote
              (map strip (configspecParserExctractSections ''option'' ?s))) \<noteq> []"
    by (simp only: e t) simp
  have r: "\<exists>r. configspecParser (SpecStr ?s) [] = Inr r \<and>
            string_list r = [''mm'', ''in''] \<and> minimum r = None \<and> maximum r = None"
    using T[THEN conjunct2, THEN conjunct2, rule_format, OF ne] by (simp only: e t)
  show ?thesis by (intro conjI) (rule f e l r)+
qed













section \<open>The form controller\<close>

text \<open>
  The values of the configuration document: a nested dictionary with string keys whose
  leaves are Python scalars, strings and lists. A dictionary lists its items in the order
  in which Python iterates over it.
\<close>

datatype pyval =
    VNone
  | VBool bool
  | VInt int
  | VFloat pyfloat
  | VStr string
  | VList "pyval list"
  | VDict "(string \<times> pyval) list"




text \<open>
  The window definition: a dictionary whose values are nested dictionaries, widgets
  (instances of \<open>QWidget\<close> or \<open>QLayout\<close>, of any widget type \<open>'w\<close>) or anything else.
\<close>

datatype 'w node = Section "(string \<times> 'w node) list" | Widget 'w | Other

text \<open>\<open>ConfigWindow.validateConfiguration\<close> (lines 474 to 503); the first argument is the
  method \<open>validateValue\<close> of the widgets, the list is what remains of the \<open>for\<close> loop.\<close>

fun validateConfiguration ::
  "('w \<Rightarrow> bool \<times> string) \<Rightarrow> (string \<times> 'w node) list \<Rightarrow> string \<Rightarrow> bool \<Rightarrow> bool \<times> string" where
  "validateConfiguration validateValue [] result_string result_bool = (result_bool, result_string)"
| "validateConfiguration validateValue ((section, item) # window_def) result_string result_bool =
     (if section = ''__section_title__'' then
        validateConfiguration validateValue window_def result_string result_bool
      else
        (case item of
           Section sub \<Rightarrow>
             (case validateConfiguration validateValue sub result_string result_bool of
                (result_bool, result_string) \<Rightarrow>
                  validateConfiguration validateValue window_def result_string result_bool)
         | Widget w \<Rightarrow>
             (let result = validateValue w;
                  result_bool = (if fst result = False then False else result_bool);
                  result_string = result_string @ snd result
              in validateConfiguration validateValue window_def result_string result_bool)
         | Other \<Rightarrow> validateConfiguration validateValue window_def result_string result_bool))"





text \<open>\<open>ConfigWindow.createWidgetSubSection\<close> (lines 240 to 270): the widgets that the call
  adds to the layout of the tab, in the order in which it adds them. \<open>sorted\<close> orders the
  keys as strings.\<close>

fun createWidgetSubSection :: "'w node \<Rightarrow> 'w list" where
  "createWidgetSubSection (Section subdefinition) =
     concat (map (\<lambda>(subsection, item).
                    if subsection = ''__section_title__'' then []
                    else createWidgetSubSection item)
                 (sort_key fst subdefinition))"
| "createWidgetSubSection (Widget w) = [w]"
| "createWidgetSubSection Other = []"







subsection \<open>Widgets\<close>

text \<open>\<open>str(i)\<close> for an integer.\<close>

function str_nat :: "nat \<Rightarrow> string" where
  "str_nat n = (if n < 10 then [char_of (48 + n)]
                else str_nat (n div 10) @ [char_of (48 + n mod 10)])"
  by pat_completeness auto
termination
  by (relation "measure (\<lambda>n. n)") auto

declare str_nat.simps [simp del]

definition str_int :: "int \<Rightarrow> string" where
  "str_int i = (if i < 0 then CHR ''-'' # str_nat (nat (- i)) else str_nat (nat i))"


text \<open>\<open>CfgCheckBox\<close> (lines 539 to 593): the widget is its check state.\<close>

datatype check_state = Unchecked | PartiallyChecked | Checked


definition CfgCheckBox_validateValue :: "check_state \<Rightarrow> bool \<times> string" where
  "CfgCheckBox_validateValue self = (True, [])"



text \<open>\<open>CfgLineEdit\<close> (lines 748 to 818): the text of the line edit, the least length and
  the text of the label. Messages are built with no translation installed.\<close>

record line_edit =
  text_of :: string
  size_min :: int
  label_of :: string

definition CfgLineEdit_validateValue :: "line_edit \<Rightarrow> bool \<times> string" where
  "CfgLineEdit_validateValue self =
     (let field_length = int (length (text_of self))
      in if field_length < size_min self then
           (False, [newline] @ ''Not enough chars (expected '' @ str_int (size_min self)
                   @ '', found '' @ str_int field_length @ '') for the field '' @ [dq]
                   @ label_of self @ [dq] @ [newline])
         else (True, []))"


subsection \<open>What a traversal reaches\<close>

text \<open>The widgets that the traversals visit, in the order of the visit: the items of a
  dictionary in its own order, a nested dictionary in the place of its key, the key
  \<open>__section_title__\<close> and the items that are no widget left out.\<close>

fun leaves :: "(string \<times> 'w node) list \<Rightarrow> 'w list" where
  "leaves [] = []"
| "leaves ((section, item) # window_def) =
     (if section = ''__section_title__'' then []
      else (case item of Section sub \<Rightarrow> leaves sub | Widget w \<Rightarrow> [w] | Other \<Rightarrow> []))
     @ leaves window_def"

text \<open>The document is a dictionary wherever a traversal looks into it, and every widget
  that the traversal visits has its value there, under its key in the dictionaries that
  its sections name.\<close>

fun holds_values :: "('w \<Rightarrow> pyval) \<Rightarrow> (string \<times> 'w node) list \<Rightarrow> pyval \<Rightarrow> bool" where
  "holds_values getValue [] config = True"
| "holds_values getValue ((section, item) # window_def) config =
     ((if section = ''__section_title__'' then True
       else (case config of
               VDict d \<Rightarrow>
                 (case item of
                    Section sub \<Rightarrow>
                      (case map_of d section of
                         Some config_sub \<Rightarrow> holds_values getValue sub config_sub
                       | None \<Rightarrow> False)
                  | Widget w \<Rightarrow> map_of d section = Some (getValue w)
                  | Other \<Rightarrow> True)
             | _ \<Rightarrow> False))
      \<and> holds_values getValue window_def config)"



subsection \<open>The traversals as list functions\<close>

lemma validateConfiguration_eq:
  "validateConfiguration vv wdef rs rb =
     (rb \<and> list_all (\<lambda>w. fst (vv w)) (leaves wdef),
      rs @ concat (map (\<lambda>w. snd (vv w)) (leaves wdef)))"
proof (induction vv wdef rs rb rule: validateConfiguration.induct)
  case (1 vv rs rb)
  show ?case by simp
next
  case (2 vv sect item wdef rs rb)
  show ?case
  proof (cases "sect = ''__section_title__''")
    case True
    with 2 show ?thesis by simp
  next
    case False
    show ?thesis
    proof (cases item)
      case (Section sub)
      with False 2 show ?thesis by (auto split: prod.splits)
    next
      case (Widget w)
      with False 2 show ?thesis by (auto simp: Let_def)
    next
      case Other
      with False 2 show ?thesis by simp
    qed
  qed
qed




lemma holds_values_cong:
  "(\<forall>k \<in> fst ` set wdef. map_of d k = map_of d' k) \<Longrightarrow>
   holds_values gv wdef (VDict d) = holds_values gv wdef (VDict d')"
proof (induction wdef)
  case Nil
  show ?case by simp
next
  case (Cons e wdef)
  obtain sect item where e: "e = (sect, item)" by (cases e)
  have m: "map_of d sect = map_of d' sect" using Cons.prems e by simp
  have r: "holds_values gv wdef (VDict d) = holds_values gv wdef (VDict d')" using Cons by simp
  show ?case unfolding e using m by (cases item) (simp_all add: r)
qed


section \<open>Properties of the form controller\<close>

text \<open>
  Claim C6. \<open>validateConfiguration\<close>, called on a window definition as \<open>accept\<close> calls it,
  visits the widgets in the order of the dictionaries, as they were filled and not sorted;
  its boolean is the conjunction of the booleans that the widgets' \<open>validateValue\<close> give,
  and its string is their strings, concatenated in the order of the visit. So the message
  of every invalid widget is part of the report, and the boolean is then \<open>False\<close>; when
  every widget is valid, with the empty message that a valid widget of the module gives,
  the result is \<open>True\<close> with an empty report.
\<close>

theorem validation_aggregates:
  "validateConfiguration validateValue window_def [] True =
     (list_all (\<lambda>w. fst (validateValue w)) (leaves window_def),
      concat (map (\<lambda>w. snd (validateValue w)) (leaves window_def)))
   \<and> (w \<in> set (leaves window_def) \<and> \<not> fst (validateValue w) \<longrightarrow>
        \<not> fst (validateConfiguration validateValue window_def [] True) \<and>
        (\<exists>pre post. snd (validateConfiguration validateValue window_def [] True)
                      = pre @ snd (validateValue w) @ post))
   \<and> ((\<forall>w \<in> set (leaves window_def). fst (validateValue w) \<and> snd (validateValue w) = []) \<longrightarrow>
        validateConfiguration validateValue window_def [] True = (True, []))"
proof (intro conjI impI)
  show "validateConfiguration validateValue window_def [] True =
     (list_all (\<lambda>w. fst (validateValue w)) (leaves window_def),
      concat (map (\<lambda>w. snd (validateValue w)) (leaves window_def)))"
    by (simp add: validateConfiguration_eq)
next
  assume h: "w \<in> set (leaves window_def) \<and> \<not> fst (validateValue w)"
  then show "\<not> fst (validateConfiguration validateValue window_def [] True)"
    by (auto simp: validateConfiguration_eq list_all_iff)
next
  assume h: "w \<in> set (leaves window_def) \<and> \<not> fst (validateValue w)"
  then obtain ys zs where "leaves window_def = ys @ w # zs"
    by (auto simp: in_set_conv_decomp)
  then have "concat (map (\<lambda>w. snd (validateValue w)) (leaves window_def))
      = concat (map (\<lambda>w. snd (validateValue w)) ys) @ snd (validateValue w)
        @ concat (map (\<lambda>w. snd (validateValue w)) zs)"
    by simp
  then show "\<exists>pre post. snd (validateConfiguration validateValue window_def [] True)
                      = pre @ snd (validateValue w) @ post"
    unfolding validateConfiguration_eq by (metis append_Nil snd_conv)
next
  assume "\<forall>w \<in> set (leaves window_def). fst (validateValue w) \<and> snd (validateValue w) = []"
  then show "validateConfiguration validateValue window_def [] True = (True, [])"
    by (simp add: validateConfiguration_eq list_all_iff)
qed

text \<open>A form of three line edits, keyed \<open>b\<close>, \<open>a\<close> and, in a nested section, \<open>c\<close>: the
  first two are too short, the third is long enough.\<close>

definition example_form :: "(string \<times> line_edit node) list" where
  "example_form =
     [(''b'', Widget \<lparr>text_of = ''x'', size_min = 3, label_of = ''Beta''\<rparr>),
      (''__section_title__'', Other),
      (''a'', Widget \<lparr>text_of = [], size_min = 1, label_of = ''Alpha''\<rparr>),
      (''s'', Section [(''c'', Widget \<lparr>text_of = ''long enough'', size_min = 2, label_of = ''Gamma''\<rparr>)])]"

lemma ex_msgs:
  "CfgLineEdit_validateValue \<lparr>text_of = ''x'', size_min = 3, label_of = ''Beta''\<rparr>
     = (False, [newline] @ ''Not enough chars (expected 3, found 1) for the field '' @ [dq]
                @ ''Beta'' @ [dq] @ [newline])"
  "CfgLineEdit_validateValue \<lparr>text_of = [], size_min = 1, label_of = ''Alpha''\<rparr>
     = (False, [newline] @ ''Not enough chars (expected 1, found 0) for the field '' @ [dq]
                @ ''Alpha'' @ [dq] @ [newline])"
  "CfgLineEdit_validateValue \<lparr>text_of = ''long enough'', size_min = 2, label_of = ''Gamma''\<rparr>
     = (True, [])"
  by code_simp+

theorem validation_aggregates_witness:
  "leaves example_form =
     [\<lparr>text_of = ''x'', size_min = 3, label_of = ''Beta''\<rparr>,
      \<lparr>text_of = [], size_min = 1, label_of = ''Alpha''\<rparr>,
      \<lparr>text_of = ''long enough'', size_min = 2, label_of = ''Gamma''\<rparr>]
   \<and> validateConfiguration CfgLineEdit_validateValue example_form [] True =
       (False,
        ([newline] @ ''Not enough chars (expected 3, found 1) for the field '' @ [dq]
                @ ''Beta'' @ [dq] @ [newline])
        @ ([newline] @ ''Not enough chars (expected 1, found 0) for the field '' @ [dq]
                @ ''Alpha'' @ [dq] @ [newline]))
   \<and> validateConfiguration CfgLineEdit_validateValue
        [(''s'', Section [(''c'', Widget \<lparr>text_of = ''long enough'', size_min = 2, label_of = ''Gamma''\<rparr>)])]
        [] True = (True, [])"
proof -
  have l: "leaves example_form =
     [\<lparr>text_of = ''x'', size_min = 3, label_of = ''Beta''\<rparr>,
      \<lparr>text_of = [], size_min = 1, label_of = ''Alpha''\<rparr>,
      \<lparr>text_of = ''long enough'', size_min = 2, label_of = ''Gamma''\<rparr>]"
    by (simp add: example_form_def)
  have a: "validateConfiguration CfgLineEdit_validateValue example_form [] True =
       (False,
        ([newline] @ ''Not enough chars (expected 3, found 1) for the field '' @ [dq]
                @ ''Beta'' @ [dq] @ [newline])
        @ ([newline] @ ''Not enough chars (expected 1, found 0) for the field '' @ [dq]
                @ ''Alpha'' @ [dq] @ [newline]))"
    using validation_aggregates[of CfgLineEdit_validateValue example_form, THEN conjunct1]
    by (simp only: l) (simp add: ex_msgs)
  let ?f = "[(''s'', Section [(''c'', Widget \<lparr>text_of = ''long enough'', size_min = 2, label_of = ''Gamma''\<rparr>)])]"
  have h: "\<forall>w \<in> set (leaves ?f). fst (CfgLineEdit_validateValue w) \<and> snd (CfgLineEdit_validateValue w) = []"
    by (simp add: ex_msgs)
  have b: "validateConfiguration CfgLineEdit_validateValue ?f [] True = (True, [])"
    using validation_aggregates[of CfgLineEdit_validateValue ?f, THEN conjunct2, THEN conjunct2,
        THEN mp, OF h] .
  show ?thesis by (intro conjI) (rule l a b)+
qed

text \<open>The build of the same form adds the widgets in the sorted order of their keys,
  \<open>a\<close> before \<open>b\<close>, which is not the order of the validation.\<close>

lemma build_order_example:
  "createWidgetSubSection (Section example_form) =
     [\<lparr>text_of = [], size_min = 1, label_of = ''Alpha''\<rparr>,
      \<lparr>text_of = ''x'', size_min = 3, label_of = ''Beta''\<rparr>,
      \<lparr>text_of = ''long enough'', size_min = 2, label_of = ''Gamma''\<rparr>]"
  by code_simp



















section \<open>The table of tool parameters\<close>

text \<open>
  \<open>CfgTableToolParameters\<close> (lines 1205 to 1317), as far as \<open>validateValue\<close> reads it: the
  text of the label, the number of columns, and for every row the value of the spin box
  that is the cell widget of column 0, or \<open>None\<close> where that cell has no widget.
\<close>

record tool_table =
  table_label :: string
  columnCount :: nat
  first_column :: "int option list"

definition empty_cell_message :: "nat \<Rightarrow> string \<Rightarrow> string" where
  "empty_cell_message i label =
     [newline] @ ''The cell at line '' @ str_int (int i)
     @ '', column 0 must not be empty for the table '' @ [dq] @ label @ [dq] @ [newline]"

definition duplicate_message :: "int \<Rightarrow> string \<Rightarrow> string" where
  "duplicate_message n label =
     [newline] @ ''Found '' @ str_int n @ '' duplicate elements for the table ''
     @ [dq] @ label @ [dq] @ [newline]"

definition tool_1_message :: "string \<Rightarrow> string" where
  "tool_1_message label =
     [newline] @ ''The table '' @ [dq] @ label @ [dq]
     @ '' must always contains tool number '' @ [sq] @ ''1'' @ [sq] @ [newline]"

text \<open>The body of the \<open>for\<close> loop of lines 1265 to 1273, for row \<open>i\<close> with the cell widget
  \<open>cell\<close>; the state is \<open>result_bool\<close>, \<open>result_string\<close>, \<open>keys_list\<close> and \<open>contains_tool_1\<close>.\<close>

definition tool_row_step ::
  "string \<Rightarrow> nat \<times> int option \<Rightarrow> bool \<times> string \<times> string list \<times> bool
     \<Rightarrow> bool \<times> string \<times> string list \<times> bool" where
  "tool_row_step label row state =
     (case state of (result_bool, result_string, keys_list, contains_tool_1) \<Rightarrow>
        (case snd row of
           None \<Rightarrow> (False, result_string @ empty_cell_message (fst row) label, keys_list,
                     contains_tool_1)
         | Some v \<Rightarrow> (result_bool, result_string, keys_list @ [str_int v],
                       (if v = 1 then True else contains_tool_1))))"

text \<open>\<open>CfgTableToolParameters.validateValue\<close> (lines 1251 to 1285), with no translation
  installed.\<close>

definition CfgTableToolParameters_validateValue :: "tool_table \<Rightarrow> bool \<times> string" where
  "CfgTableToolParameters_validateValue self =
     (case
        (if length (first_column self) > 0 \<and> columnCount self > 0 then
           (case fold (tool_row_step (table_label self)) (List.enumerate 0 (first_column self))
                   (True, [], [], False) of
              (result_bool, result_string, keys_list, contains_tool_1) \<Rightarrow>
                (let nb_duplicate_elements =
                       int (length keys_list) - int (length (remdups keys_list))
                 in if nb_duplicate_elements \<noteq> 0 then
                      (False, result_string
                         @ duplicate_message nb_duplicate_elements (table_label self),
                       contains_tool_1)
                    else (result_bool, result_string, contains_tool_1)))
         else (True, [], False)) of
        (result_bool, result_string, contains_tool_1) \<Rightarrow>
          if \<not> contains_tool_1 then
            (False, result_string @ tool_1_message (table_label self))
          else (result_bool, result_string))"

lemma tool_row_step_None:
  "tool_row_step label (n, None) (rb, rs, kl, c1) =
     (False, rs @ empty_cell_message n label, kl, c1)"
  by (simp add: tool_row_step_def)

lemma tool_row_step_Some:
  "tool_row_step label (n, Some v) (rb, rs, kl, c1) =
     (rb, rs, kl @ [str_int v], v = 1 \<or> c1)"
  by (simp add: tool_row_step_def)

lemma fold_tool_row_step:
  "fold (tool_row_step label) (List.enumerate n rows) (rb, rs, kl, c1) =
     (rb \<and> None \<notin> set rows,
      rs @ concat (map (\<lambda>(i, c). case c of None \<Rightarrow> empty_cell_message i label | Some v \<Rightarrow> [])
                     (List.enumerate n rows)),
      kl @ map str_int (List.map_filter id rows),
      c1 \<or> Some 1 \<in> set rows)"
proof (induction rows arbitrary: n rb rs kl c1)
  case Nil
  show ?case by (simp add: List.map_filter_simps)
next
  case (Cons r rows)
  show ?case
  proof (cases r)
    case None
    then show ?thesis by (simp add: tool_row_step_None Cons.IH List.map_filter_simps)
  next
    case (Some v)
    then show ?thesis by (auto simp: tool_row_step_Some Cons.IH List.map_filter_simps)
  qed
qed

lemma not_distinct_keys:
  assumes "i < j" "j < length rows" "rows ! i = Some a" "rows ! j = Some b" "f a = f b"
  shows "\<not> distinct (map f (List.map_filter id rows))"
proof -
  have i: "i < length rows" using assms by simp
  have "rows = take j rows @ rows ! j # drop (Suc j) rows"
    using assms(2) by (simp add: id_take_nth_drop)
  moreover have "take j rows = take i (take j rows) @ (take j rows) ! i # drop (Suc i) (take j rows)"
    using assms(1,2) by (intro id_take_nth_drop) simp
  moreover have "(take j rows) ! i = Some a" using assms by simp
  ultimately obtain xs ys zs where "rows = (xs @ Some a # ys) @ Some b # zs"
    using assms(4) by metis
  then have "map f (List.map_filter id rows)
      = map f (List.map_filter id xs) @ f a # map f (List.map_filter id ys)
        @ f b # map f (List.map_filter id zs)"
    by (simp add: List.map_filter_def)
  then show ?thesis using assms(5) by auto
qed

lemma remdups_shorter: "\<not> distinct xs \<Longrightarrow> length (remdups xs) < length xs"
  by (metis length_remdups_eq length_remdups_leq nat_less_le remdups_id_iff_distinct)

text \<open>\<open>keys_list\<close> after the loop, and the number \<open>nb_duplicate_elements\<close> computed from it.\<close>

definition keys_list_of :: "tool_table \<Rightarrow> string list" where
  "keys_list_of self = map str_int (List.map_filter id (first_column self))"

definition nb_duplicate_elements_of :: "tool_table \<Rightarrow> int" where
  "nb_duplicate_elements_of self =
     int (length (keys_list_of self)) - int (length (remdups (keys_list_of self)))"

lemma CfgTableToolParameters_validateValue_eq:
  "CfgTableToolParameters_validateValue self =
     (let loop = (first_column self \<noteq> [] \<and> columnCount self > 0);
          rs = (if loop then
                  concat (map (\<lambda>(i, c). case c of None \<Rightarrow> empty_cell_message i (table_label self)
                                                 | Some v \<Rightarrow> [])
                            (List.enumerate 0 (first_column self)))
                  @ (if nb_duplicate_elements_of self \<noteq> 0
                     then duplicate_message (nb_duplicate_elements_of self) (table_label self)
                     else [])
                else []);
          rb = (if loop then None \<notin> set (first_column self) \<and> nb_duplicate_elements_of self = 0
                else True)
      in if loop \<and> Some 1 \<in> set (first_column self) then (rb, rs)
         else (False, rs @ tool_1_message (table_label self)))"
  using fold_tool_row_step[of "table_label self" 0 "first_column self" True "[]" "[]" False]
  by (simp add: CfgTableToolParameters_validateValue_def Let_def keys_list_of_def
      nb_duplicate_elements_of_def)

lemma keys_list_of_eq:
  "keys_list_of self = map (str_int \<circ> the) (filter (\<lambda>c. c \<noteq> None) (first_column self))"
proof -
  have "\<And>rows :: int option list.
          List.map_filter id rows = map the (filter (\<lambda>c. c \<noteq> None) rows)"
    by (simp add: List.map_filter_def)
  then show ?thesis by (simp add: keys_list_of_def)
qed

lemma nb_duplicate_elements_of_eq:
  "nb_duplicate_elements_of self =
     int (length (map (str_int \<circ> the) (filter (\<lambda>c. c \<noteq> None) (first_column self))))
     - int (card (set (map (str_int \<circ> the) (filter (\<lambda>c. c \<noteq> None) (first_column self)))))"
  unfolding nb_duplicate_elements_of_def keys_list_of_eq length_remdups_card_conv ..

text \<open>
  Claim C9. For the table of tool parameters, \<open>validateValue\<close> fails whenever two rows of
  a table with at least one column have the same value in column 0, and its report then
  holds the line \<open>Found n duplicate elements for the table "label"\<close>, where \<open>n\<close> is the
  number of keys less the number of different keys; and it fails whenever no row has the
  value 1 in column 0, whatever the rest of the table is and also when the table has no
  row or no column, and its report then ends with the line
  \<open>The table "label" must always contains tool number '1'\<close>.
\<close>

theorem tool_table_validation:
  "(0 < columnCount self \<and> i < j \<and> j < length (first_column self) \<and>
    first_column self ! i = Some a \<and> first_column self ! j = Some a \<longrightarrow>
      \<not> fst (CfgTableToolParameters_validateValue self) \<and>
      (\<exists>n pre post.
         0 < n \<and>
         n = int (length (map (str_int \<circ> the) (filter (\<lambda>c. c \<noteq> None) (first_column self))))
             - int (card (set (map (str_int \<circ> the) (filter (\<lambda>c. c \<noteq> None) (first_column self))))) \<and>
         snd (CfgTableToolParameters_validateValue self) =
           pre @ [CHR 0x0A] @ ''Found '' @ str_int n @ '' duplicate elements for the table ''
               @ [CHR 0x22] @ table_label self @ [CHR 0x22] @ [CHR 0x0A] @ post))
   \<and> (columnCount self = 0 \<or> Some 1 \<notin> set (first_column self) \<longrightarrow>
      \<not> fst (CfgTableToolParameters_validateValue self) \<and>
      (\<exists>pre. snd (CfgTableToolParameters_validateValue self) =
         pre @ [CHR 0x0A] @ ''The table '' @ [CHR 0x22] @ table_label self @ [CHR 0x22]
             @ '' must always contains tool number '' @ [CHR 0x27] @ ''1'' @ [CHR 0x27]
             @ [CHR 0x0A]))"
proof (intro conjI impI)
  assume h: "0 < columnCount self \<and> i < j \<and> j < length (first_column self) \<and>
    first_column self ! i = Some a \<and> first_column self ! j = Some a"
  then have "\<not> distinct (keys_list_of self)"
    unfolding keys_list_of_def using not_distinct_keys[of i j "first_column self" a a str_int]
    by blast
  then have n: "0 < nb_duplicate_elements_of self"
    unfolding nb_duplicate_elements_of_def using remdups_shorter by fastforce
  have ne: "first_column self \<noteq> []" using h by auto
  show "\<not> fst (CfgTableToolParameters_validateValue self)"
    using n ne h by (simp add: CfgTableToolParameters_validateValue_eq Let_def)
  have "\<exists>pre post. snd (CfgTableToolParameters_validateValue self) =
         pre @ duplicate_message (nb_duplicate_elements_of self) (table_label self) @ post"
  proof (cases "Some 1 \<in> set (first_column self)")
    case True
    then have "snd (CfgTableToolParameters_validateValue self) =
       concat (map (\<lambda>(i, c). case c of None \<Rightarrow> empty_cell_message i (table_label self)
                                                 | Some v \<Rightarrow> [])
                            (List.enumerate 0 (first_column self)))
       @ duplicate_message (nb_duplicate_elements_of self) (table_label self) @ []"
      using n ne h by (simp add: CfgTableToolParameters_validateValue_eq Let_def)
    then show ?thesis by blast
  next
    case False
    then have "snd (CfgTableToolParameters_validateValue self) =
       concat (map (\<lambda>(i, c). case c of None \<Rightarrow> empty_cell_message i (table_label self)
                                                 | Some v \<Rightarrow> [])
                            (List.enumerate 0 (first_column self)))
       @ duplicate_message (nb_duplicate_elements_of self) (table_label self)
       @ tool_1_message (table_label self)"
      using n ne h by (simp add: CfgTableToolParameters_validateValue_eq Let_def)
    then show ?thesis by blast
  qed
  then obtain pre post where m: "snd (CfgTableToolParameters_validateValue self) =
         pre @ duplicate_message (nb_duplicate_elements_of self) (table_label self) @ post"
    by blast
  have m': "snd (CfgTableToolParameters_validateValue self) =
           pre @ [CHR 0x0A] @ ''Found '' @ str_int (nb_duplicate_elements_of self)
               @ '' duplicate elements for the table ''
               @ [CHR 0x22] @ table_label self @ [CHR 0x22] @ [CHR 0x0A] @ post"
    unfolding m by (simp add: duplicate_message_def newline_def dq_def)
  show "\<exists>n pre post.
         0 < n \<and>
         n = int (length (map (str_int \<circ> the) (filter (\<lambda>c. c \<noteq> None) (first_column self))))
             - int (card (set (map (str_int \<circ> the) (filter (\<lambda>c. c \<noteq> None) (first_column self))))) \<and>
         snd (CfgTableToolParameters_validateValue self) =
           pre @ [CHR 0x0A] @ ''Found '' @ str_int n @ '' duplicate elements for the table ''
               @ [CHR 0x22] @ table_label self @ [CHR 0x22] @ [CHR 0x0A] @ post"
    by (intro exI[of _ "nb_duplicate_elements_of self"] exI[of _ pre] exI[of _ post] conjI)
       (rule n nb_duplicate_elements_of_eq m')+
next
  assume h: "columnCount self = 0 \<or> Some 1 \<notin> set (first_column self)"
  then show "\<not> fst (CfgTableToolParameters_validateValue self)"
    by (auto simp: CfgTableToolParameters_validateValue_eq Let_def)
next
  assume h: "columnCount self = 0 \<or> Some 1 \<notin> set (first_column self)"
  then have "snd (CfgTableToolParameters_validateValue self) =
     (if first_column self \<noteq> [] \<and> columnCount self > 0 then
                  concat (map (\<lambda>(i, c). case c of None \<Rightarrow> empty_cell_message i (table_label self)
                                                 | Some v \<Rightarrow> [])
                            (List.enumerate 0 (first_column self)))
                  @ (if nb_duplicate_elements_of self \<noteq> 0
                     then duplicate_message (nb_duplicate_elements_of self) (table_label self)
                     else [])
                else []) @ tool_1_message (table_label self)"
    by (auto simp: CfgTableToolParameters_validateValue_eq Let_def)
  then have "\<exists>pre. snd (CfgTableToolParameters_validateValue self) =
         pre @ tool_1_message (table_label self)"
    by blast
  then show "\<exists>pre. snd (CfgTableToolParameters_validateValue self) =
         pre @ [CHR 0x0A] @ ''The table '' @ [CHR 0x22] @ table_label self @ [CHR 0x22]
             @ '' must always contains tool number '' @ [CHR 0x27] @ ''1'' @ [CHR 0x27]
             @ [CHR 0x0A]"
    by (simp add: tool_1_message_def newline_def dq_def sq_def)
qed

theorem tool_table_validation_witness:
  "\<not> fst (CfgTableToolParameters_validateValue
     \<lparr>table_label = ''Tools'', columnCount = 4, first_column = [Some 2, Some 2, Some 3]\<rparr>)
   \<and> CfgTableToolParameters_validateValue
     \<lparr>table_label = ''Tools'', columnCount = 4, first_column = [Some 2, Some 2, Some 3]\<rparr>
     = (False,
        [CHR 0x0A] @ ''Found 1 duplicate elements for the table '' @ [CHR 0x22] @ ''Tools''
          @ [CHR 0x22] @ [CHR 0x0A]
        @ [CHR 0x0A] @ ''The table '' @ [CHR 0x22] @ ''Tools'' @ [CHR 0x22]
          @ '' must always contains tool number '' @ [CHR 0x27] @ ''1'' @ [CHR 0x27] @ [CHR 0x0A])
   \<and> CfgTableToolParameters_validateValue
     \<lparr>table_label = ''Tools'', columnCount = 4,
       first_column = [Some 1, Some 7, Some 7, Some 7, Some 7, Some 7, Some 7, Some 7, Some 7,
                       Some 7, Some 7, Some 7, Some 7, None]\<rparr>
     = (False,
        [CHR 0x0A] @ ''The cell at line 13, column 0 must not be empty for the table ''
          @ [CHR 0x22] @ ''Tools'' @ [CHR 0x22] @ [CHR 0x0A]
        @ [CHR 0x0A] @ ''Found 11 duplicate elements for the table '' @ [CHR 0x22] @ ''Tools''
          @ [CHR 0x22] @ [CHR 0x0A])
   \<and> \<not> fst (CfgTableToolParameters_validateValue
     \<lparr>table_label = ''Tools'', columnCount = 4, first_column = []\<rparr>)
   \<and> snd (CfgTableToolParameters_validateValue
     \<lparr>table_label = ''Tools'', columnCount = 4, first_column = []\<rparr>)
     = [CHR 0x0A] @ ''The table '' @ [CHR 0x22] @ ''Tools'' @ [CHR 0x22]
          @ '' must always contains tool number '' @ [CHR 0x27] @ ''1'' @ [CHR 0x27] @ [CHR 0x0A]
   \<and> CfgTableToolParameters_validateValue
     \<lparr>table_label = ''Tools'', columnCount = 4, first_column = [Some 2, Some 1]\<rparr> = (True, [])"
proof -
  let ?t = "\<lparr>table_label = ''Tools'', columnCount = 4, first_column = [Some 2, Some 2, Some (3::int)]\<rparr>"
  let ?e = "\<lparr>table_label = ''Tools'', columnCount = 4, first_column = ([] :: int option list)\<rparr>"
  have h: "0 < columnCount ?t \<and> (0::nat) < 1 \<and> 1 < length (first_column ?t) \<and>
    first_column ?t ! 0 = Some 2 \<and> first_column ?t ! 1 = Some 2"
    by simp
  have d: "\<not> fst (CfgTableToolParameters_validateValue ?t)"
    using tool_table_validation[of ?t 0 1 2, THEN conjunct1, THEN mp, OF h] by blast
  have v: "CfgTableToolParameters_validateValue ?t
     = (False,
        [CHR 0x0A] @ ''Found 1 duplicate elements for the table '' @ [CHR 0x22] @ ''Tools''
          @ [CHR 0x22] @ [CHR 0x0A]
        @ [CHR 0x0A] @ ''The table '' @ [CHR 0x22] @ ''Tools'' @ [CHR 0x22]
          @ '' must always contains tool number '' @ [CHR 0x27] @ ''1'' @ [CHR 0x27] @ [CHR 0x0A])"
    by code_simp
  have w: "CfgTableToolParameters_validateValue
     \<lparr>table_label = ''Tools'', columnCount = 4,
       first_column = [Some 1, Some 7, Some 7, Some 7, Some 7, Some 7, Some 7, Some 7, Some 7,
                       Some 7, Some 7, Some 7, Some 7, None]\<rparr>
     = (False,
        [CHR 0x0A] @ ''The cell at line 13, column 0 must not be empty for the table ''
          @ [CHR 0x22] @ ''Tools'' @ [CHR 0x22] @ [CHR 0x0A]
        @ [CHR 0x0A] @ ''Found 11 duplicate elements for the table '' @ [CHR 0x22] @ ''Tools''
          @ [CHR 0x22] @ [CHR 0x0A])"
    by code_simp
  have g: "columnCount ?e = 0 \<or> Some 1 \<notin> set (first_column ?e)" by simp
  have f: "\<not> fst (CfgTableToolParameters_validateValue ?e)"
    using tool_table_validation[of ?e 0 0 0, THEN conjunct2, THEN mp, OF g] by blast
  have s: "snd (CfgTableToolParameters_validateValue ?e)
     = [CHR 0x0A] @ ''The table '' @ [CHR 0x22] @ ''Tools'' @ [CHR 0x22]
          @ '' must always contains tool number '' @ [CHR 0x27] @ ''1'' @ [CHR 0x27] @ [CHR 0x0A]"
    by code_simp
  have k: "CfgTableToolParameters_validateValue
     \<lparr>table_label = ''Tools'', columnCount = 4, first_column = [Some 2, Some 1]\<rparr> = (True, [])"
    by code_simp
  show ?thesis by (intro conjI) (rule d v w f s k)+
qed

section \<open>The editable table\<close>

text \<open>
  \<open>CfgTable\<close> (lines 924 to 1109), as far as \<open>setValue\<close> reads and writes it: the column
  names \<open>self.keys\<close>, which \<open>setSpec\<close> sets together with the number of columns of the
  table widget; the rows of the table widget, every cell being the value that was handed
  to \<open>setCellValue\<close> for it; the current row of the table widget, \<open>-1\<close> when there is none;
  and whether some cell is selected.
\<close>

record table =
  keys_of :: "string list"
  rows_of :: "pyval list list"
  currentRow :: int
  has_selection :: bool



























end
